theory Spec2Isabelle
  imports Main "HOL-Library.Multiset"
begin

section \<open>Data model (app/models.py)\<close>

text \<open>
  \<^verbatim>\<open>class TaskPriority(str, Enum)\<close>: the four priority levels.
\<close>

datatype TaskPriority = LOW | MEDIUM | HIGH | URGENT

text \<open>
  A \<^verbatim>\<open>datetime\<close> is a point of the UTC time line counted in microseconds, a
  \<^verbatim>\<open>date\<close> is a day ordinal. Only equality and order of timestamps are used.
\<close>

type_synonym datetime = int
type_synonym date = int

text \<open>
  The two failures a caller of the service can see: pydantic's ValidationError, raised
  when a request schema is constructed from values that break a \<^verbatim>\<open>Field\<close>
  constraint, and the IntegrityError that \<^verbatim>\<open>session.commit()\<close> raises when a
  column declared without \<^verbatim>\<open>Optional\<close> would be written as NULL.
\<close>

datatype error = ValidationError | IntegrityError

text \<open>
  A keyword argument of a request schema is either left out (\<open>Unset\<close>) or passed
  (\<open>Given v\<close>). pydantic records which fields were passed, and
  \<^verbatim>\<open>model_dump(exclude_unset=True)\<close> returns exactly those; a field passed as
  \<^verbatim>\<open>None\<close> is \<open>Given None\<close>, which is not the same as leaving it out.
\<close>

datatype 'a field = Unset | Given 'a

text \<open>\<^verbatim>\<open>class TaskCreate(SQLModel, table=False)\<close>\<close>

record TaskCreate =
  title :: string
  description :: string
  priority :: TaskPriority
  due_date :: "date option"

text \<open>\<^verbatim>\<open>class TaskUpdate(SQLModel, table=False)\<close>: every field optional.\<close>

record TaskUpdate =
  title :: "string option field"
  description :: "string option field"
  completed :: "bool option field"
  priority :: "TaskPriority option field"
  due_date :: "date option field"

text \<open>
  \<^verbatim>\<open>class Task(SQLModel, table=True)\<close>. The primary key is
  \<^verbatim>\<open>Optional[int]\<close>: it is \<open>None\<close> on an object that was never stored.
\<close>

record Task =
  id' :: "int option"
  title :: string
  description :: string
  completed :: bool
  priority :: TaskPriority
  due_date :: "date option"
  created_at :: datetime
  updated_at :: datetime

subsection \<open>Field constraints and the validating constructors\<close>

text \<open>\<^verbatim>\<open>Field(max_length=200, min_length=1)\<close> and \<^verbatim>\<open>Field(max_length=1000)\<close>.\<close>

definition title_ok :: "string \<Rightarrow> bool" where
  "title_ok s = (1 \<le> length s \<and> length s \<le> 200)"

definition description_ok :: "string \<Rightarrow> bool" where
  "description_ok s = (length s \<le> 1000)"

text \<open>
  \<^verbatim>\<open>TaskCreate(title=..., description=..., priority=..., due_date=...)\<close>: the title
  is required, an argument left out (\<open>None\<close> here) takes the default of its field.
  Construction validates and raises on a violated constraint.
\<close>

definition TaskCreate_init ::
  "string \<Rightarrow> string option \<Rightarrow> TaskPriority option \<Rightarrow> date option \<Rightarrow> error + TaskCreate" where
  "TaskCreate_init title_arg description_arg priority_arg due_date_arg =
     (let d = (case description_arg of None \<Rightarrow> [] | Some s \<Rightarrow> s);
          p = (case priority_arg of None \<Rightarrow> MEDIUM | Some q \<Rightarrow> q)
      in if \<not> title_ok title_arg then Inl ValidationError
         else if \<not> description_ok d then Inl ValidationError
         else Inr \<lparr>TaskCreate.title = title_arg, description = d, priority = p,
                   due_date = due_date_arg\<rparr>)"

text \<open>
  \<^verbatim>\<open>TaskUpdate(...)\<close>: the length constraints apply to a title or description
  that is passed as a string; \<^verbatim>\<open>None\<close> and a field left out pass validation.
\<close>

definition TaskUpdate_init ::
  "string option field \<Rightarrow> string option field \<Rightarrow> bool option field \<Rightarrow>
   TaskPriority option field \<Rightarrow> date option field \<Rightarrow> error + TaskUpdate" where
  "TaskUpdate_init title_arg description_arg completed_arg priority_arg due_date_arg =
     (if (case title_arg of Given (Some s) \<Rightarrow> \<not> title_ok s | _ \<Rightarrow> False)
        then Inl ValidationError
      else if (case description_arg of Given (Some s) \<Rightarrow> \<not> description_ok s | _ \<Rightarrow> False)
        then Inl ValidationError
      else Inr \<lparr>TaskUpdate.title = title_arg, description = description_arg,
                completed = completed_arg, priority = priority_arg,
                due_date = due_date_arg\<rparr>)"

section \<open>The task table\<close>

text \<open>
  Modelled from the spec: the store behind \<^verbatim>\<open>sqlmodel.Session\<close>
  (app/database.py and the database engine are not among the sources). The spec asks of
  it to "assign a unique ascending-friendly id on insert, fetch by id, delete by id, and
  scan all records with ordering", with ids "never reused after deletion". The table is
  the list of its rows in insertion order together with the next id to hand out.
\<close>

record store =
  rows :: "Task list"
  next_id :: int

definition empty_store :: store where
  "empty_store = \<lparr>rows = [], next_id = 1\<rparr>"

text \<open>Every stored row has an id below the counter, and no two rows share an id.\<close>

definition wf_store :: "store \<Rightarrow> bool" where
  "wf_store st =
     (list_all (\<lambda>r. case id' r of None \<Rightarrow> False | Some k \<Rightarrow> k < next_id st) (rows st) \<and>
      distinct (map id' (rows st)))"

text \<open>\<^verbatim>\<open>session.get(Task, task_id)\<close>: the row with that primary key, if any.\<close>

definition session_get :: "store \<Rightarrow> int \<Rightarrow> Task option" where
  "session_get st task_id = find (\<lambda>r. id' r = Some task_id) (rows st)"

text \<open>
  \<^verbatim>\<open>session.add(task); session.commit()\<close> for a new object: the row is inserted
  under the next id; \<^verbatim>\<open>session.refresh(task)\<close> reads that id back into the object.
\<close>

definition session_insert :: "store \<Rightarrow> Task \<Rightarrow> Task \<times> store" where
  "session_insert st task =
     (let stored = task\<lparr>id' := Some (next_id st)\<rparr>
      in (stored, st\<lparr>rows := rows st @ [stored], next_id := next_id st + 1\<rparr>))"

text \<open>
  \<^verbatim>\<open>session.add(task); session.commit()\<close> for an object loaded from the table:
  \<^verbatim>\<open>UPDATE tasks SET ... WHERE id = task.id\<close>.
\<close>

definition session_update :: "store \<Rightarrow> Task \<Rightarrow> store" where
  "session_update st task =
     st\<lparr>rows := map (\<lambda>r. if id' r = id' task then task else r) (rows st)\<rparr>"

text \<open>\<^verbatim>\<open>session.delete(task); session.commit()\<close>: \<^verbatim>\<open>DELETE FROM tasks WHERE id = task.id\<close>.\<close>

definition session_delete :: "store \<Rightarrow> Task \<Rightarrow> store" where
  "session_delete st task = st\<lparr>rows := filter (\<lambda>r. id' r \<noteq> id' task) (rows st)\<rparr>"

text \<open>
  \<^verbatim>\<open>select(Task).where(p).order_by(desc(key))\<close>: the statement names one sort key and
  no tie-breaker, so any arrangement of the selected rows that is descending in the key is
  a possible answer of the database. \<open>order_by_desc key sel res\<close> says that \<open>res\<close> is such
  an answer for the selected rows \<open>sel\<close>.
\<close>

definition order_by_desc :: "(Task \<Rightarrow> datetime) \<Rightarrow> Task list \<Rightarrow> Task list \<Rightarrow> bool" where
  "order_by_desc key sel res =
     (mset res = mset sel \<and> sorted_wrt (\<lambda>a b. key b \<le> key a) res)"

section \<open>The service (task service module)\<close>

text \<open>
  Each call of \<^verbatim>\<open>datetime.utcnow()\<close> is an argument of the operation that makes it.
  \<^verbatim>\<open>Task(**task_data.model_dump())\<close> makes two: \<^verbatim>\<open>created_at\<close> and
  \<^verbatim>\<open>updated_at\<close> each have their own \<^verbatim>\<open>default_factory=datetime.utcnow\<close>, run in
  the order of the field declarations. A table model is not validated on construction.
\<close>

definition create_task :: "store \<Rightarrow> TaskCreate \<Rightarrow> datetime \<Rightarrow> datetime \<Rightarrow> Task \<times> store" where
  "create_task st task_data now_created now_updated =
     (let task = \<lparr>id' = None,
                  title = TaskCreate.title task_data,
                  description = TaskCreate.description task_data,
                  completed = False,
                  priority = TaskCreate.priority task_data,
                  due_date = TaskCreate.due_date task_data,
                  created_at = now_created,
                  updated_at = now_updated\<rparr>
      in session_insert st task)"

definition get_all_tasks :: "store \<Rightarrow> Task list \<Rightarrow> bool" where
  "get_all_tasks st res = order_by_desc created_at (rows st) res"

definition get_task :: "store \<Rightarrow> int \<Rightarrow> Task option" where
  "get_task st task_id = session_get st task_id"

text \<open>
  The loop \<^verbatim>\<open>for field, value in update_data.items(): setattr(task, field, value)\<close>
  over the fields that were passed, in declaration order. A table model does not validate
  on assignment.
\<close>

definition setattrs :: "Task \<Rightarrow> TaskUpdate \<Rightarrow> Task" where
  "setattrs task task_data =
     (let t1 = (case TaskUpdate.title task_data of
                  Given (Some v) \<Rightarrow> task\<lparr>title := v\<rparr> | _ \<Rightarrow> task);
          t2 = (case TaskUpdate.description task_data of
                  Given (Some v) \<Rightarrow> t1\<lparr>description := v\<rparr> | _ \<Rightarrow> t1);
          t3 = (case TaskUpdate.completed task_data of
                  Given (Some v) \<Rightarrow> t2\<lparr>completed := v\<rparr> | _ \<Rightarrow> t2);
          t4 = (case TaskUpdate.priority task_data of
                  Given (Some v) \<Rightarrow> t3\<lparr>priority := v\<rparr> | _ \<Rightarrow> t3);
          t5 = (case TaskUpdate.due_date task_data of
                  Given v \<Rightarrow> t4\<lparr>due_date := v\<rparr> | Unset \<Rightarrow> t4)
      in t5)"

text \<open>
  A request that passes \<^verbatim>\<open>None\<close> for a column of \<^verbatim>\<open>Task\<close> that is not
  \<^verbatim>\<open>Optional\<close> (all but \<^verbatim>\<open>due_date\<close>) assigns NULL to it; the commit then fails.
\<close>

definition null_in_required :: "TaskUpdate \<Rightarrow> bool" where
  "null_in_required task_data =
     (TaskUpdate.title task_data = Given None \<or>
      TaskUpdate.description task_data = Given None \<or>
      TaskUpdate.completed task_data = Given None \<or>
      TaskUpdate.priority task_data = Given None)"

definition update_task ::
  "store \<Rightarrow> int \<Rightarrow> TaskUpdate \<Rightarrow> datetime \<Rightarrow> (error + Task option) \<times> store" where
  "update_task st task_id task_data now =
     (case session_get st task_id of
        None \<Rightarrow> (Inr None, st)
      | Some task \<Rightarrow>
          if null_in_required task_data then (Inl IntegrityError, st)
          else let task' = (setattrs task task_data)\<lparr>updated_at := now\<rparr>
               in (Inr (Some task'), session_update st task'))"

definition toggle_completed :: "store \<Rightarrow> int \<Rightarrow> datetime \<Rightarrow> Task option \<times> store" where
  "toggle_completed st task_id now =
     (case session_get st task_id of
        None \<Rightarrow> (None, st)
      | Some task \<Rightarrow>
          let task' = task\<lparr>completed := \<not> completed task, updated_at := now\<rparr>
          in (Some task', session_update st task'))"

definition delete_task :: "store \<Rightarrow> int \<Rightarrow> bool \<times> store" where
  "delete_task st task_id =
     (case session_get st task_id of
        None \<Rightarrow> (False, st)
      | Some task \<Rightarrow> (True, session_delete st task))"

definition get_completed_tasks :: "store \<Rightarrow> Task list \<Rightarrow> bool" where
  "get_completed_tasks st res = order_by_desc updated_at (filter completed (rows st)) res"

definition get_pending_tasks :: "store \<Rightarrow> Task list \<Rightarrow> bool" where
  "get_pending_tasks st res =
     order_by_desc created_at (filter (\<lambda>r. completed r = False) (rows st)) res"

subsection \<open>The operations as the callers invoke them\<close>

text \<open>
  Every caller (the page code in \<^verbatim>\<open>app/todo_ui.py\<close>, the tests) builds the request object and hands it to the
  service in one expression: \<^verbatim>\<open>service.create_task(TaskCreate(...))\<close>,
  \<^verbatim>\<open>service.update_task(task_id, TaskUpdate(...))\<close>. A ValidationError raised by the
  constructor leaves the service uncalled.
\<close>

definition create ::
  "store \<Rightarrow> string \<Rightarrow> string option \<Rightarrow> TaskPriority option \<Rightarrow> date option \<Rightarrow>
   datetime \<Rightarrow> datetime \<Rightarrow> (error + Task) \<times> store" where
  "create st title_arg description_arg priority_arg due_date_arg now_created now_updated =
     (case TaskCreate_init title_arg description_arg priority_arg due_date_arg of
        Inl e \<Rightarrow> (Inl e, st)
      | Inr task_data \<Rightarrow>
          (case create_task st task_data now_created now_updated of
             (task, st') \<Rightarrow> (Inr task, st')))"

definition update ::
  "store \<Rightarrow> int \<Rightarrow> string option field \<Rightarrow> string option field \<Rightarrow> bool option field \<Rightarrow>
   TaskPriority option field \<Rightarrow> date option field \<Rightarrow> datetime \<Rightarrow>
   (error + Task option) \<times> store" where
  "update st task_id title_arg description_arg completed_arg priority_arg due_date_arg now =
     (case TaskUpdate_init title_arg description_arg completed_arg priority_arg due_date_arg of
        Inl e \<Rightarrow> (Inl e, st)
      | Inr task_data \<Rightarrow> update_task st task_id task_data now)"

section \<open>The order the specification names for listings\<close>

text \<open>
  The specification's words for \<^verbatim>\<open>list_all\<close>: descending in the key, "ties broken
  by insertion order (stable)". \<open>stable_desc\<close> is that single arrangement.
\<close>

definition stable_desc :: "(Task \<Rightarrow> datetime) \<Rightarrow> Task list \<Rightarrow> Task list" where
  "stable_desc key xs = rev (sort_key key (rev xs))"

section \<open>Example tables\<close>

text \<open>
  Tables used to run the operations on concrete input: one task, two tasks created at
  the same clock reading, the second of them toggled to completed, and that table with two
  more tasks, the last one completed.
\<close>

definition example_task :: Task where
  "example_task = \<lparr>id' = Some 1, title = ''a'', description = [], completed = False,
                    priority = MEDIUM, due_date = None, created_at = 5, updated_at = 5\<rparr>"

definition example_store :: store where
  "example_store = \<lparr>rows = [example_task], next_id = 2\<rparr>"

definition example_task2 :: Task where
  "example_task2 = \<lparr>id' = Some 2, title = ''b'', description = [], completed = False,
                     priority = MEDIUM, due_date = None, created_at = 5, updated_at = 5\<rparr>"

definition example_store2 :: store where
  "example_store2 = \<lparr>rows = [example_task, example_task2], next_id = 3\<rparr>"

definition example_store3 :: store where
  "example_store3 =
     \<lparr>rows = [example_task, example_task2\<lparr>completed := True, updated_at := 8\<rparr>], next_id = 3\<rparr>"

definition example_task3 :: Task where
  "example_task3 = \<lparr>id' = Some 3, title = ''c'', description = [], completed = False,
                     priority = MEDIUM, due_date = None, created_at = 6, updated_at = 6\<rparr>"

definition example_task4 :: Task where
  "example_task4 = \<lparr>id' = Some 4, title = ''d'', description = [], completed = False,
                     priority = MEDIUM, due_date = None, created_at = 7, updated_at = 7\<rparr>"

definition example_store4 :: store where
  "example_store4 =
     \<lparr>rows = [example_task, example_task2\<lparr>completed := True, updated_at := 8\<rparr>,
              example_task3, example_task4\<lparr>completed := True, updated_at := 9\<rparr>],
      next_id = 5\<rparr>"

section \<open>Facts about the table\<close>

lemma session_get_None_iff:
  "session_get st k = None \<longleftrightarrow> Some k \<notin> id' ` set (rows st)"
  by (auto simp: session_get_def find_None_iff image_iff)

lemma session_get_SomeD:
  "session_get st k = Some t \<Longrightarrow> t \<in> set (rows st) \<and> id' t = Some k"
  by (auto simp: session_get_def find_Some_iff)

lemma find_append_case:
  "find P (xs @ ys) = (case find P xs of None \<Rightarrow> find P ys | Some x \<Rightarrow> Some x)"
  by (induction xs) auto

lemma wf_store_empty: "wf_store empty_store"
  by (simp add: wf_store_def empty_store_def)

lemma wf_store_iff:
  "wf_store st \<longleftrightarrow>
     (\<forall>r\<in>set (rows st). \<exists>k. id' r = Some k \<and> k < next_id st) \<and> distinct (map id' (rows st))"
  by (auto simp: wf_store_def list_all_iff split: option.splits)

lemma wf_store_fresh:
  "wf_store st \<Longrightarrow> Some (next_id st) \<notin> id' ` set (rows st)"
  by (auto simp: wf_store_iff)

lemma wf_store_session_insert:
  assumes "wf_store st"
  shows "wf_store (snd (session_insert st task))"
proof -
  have fresh: "Some (next_id st) \<notin> id' ` set (rows st)"
    using assms by (rule wf_store_fresh)
  have below: "\<forall>r\<in>set (rows st). \<exists>k. id' r = Some k \<and> k < next_id st + 1"
    using assms by (fastforce simp: wf_store_iff)
  show ?thesis
    using assms fresh below by (simp add: wf_store_iff session_insert_def Let_def)
qed

lemma map_id_session_update:
  "map id' (rows (session_update st task)) = map id' (rows st)"
  by (simp add: session_update_def comp_def cong: map_cong)

lemma wf_store_session_update:
  assumes "wf_store st" and "session_get st k = Some old" and "id' task = id' old"
  shows "wf_store (session_update st task)"
proof -
  have k: "id' task = Some k"
    using assms(2,3) by (simp add: session_get_SomeD)
  have "k < next_id st"
    using assms(1) session_get_SomeD[OF assms(2)] by (fastforce simp: wf_store_iff)
  then have "\<forall>r\<in>set (rows (session_update st task)). \<exists>j. id' r = Some j \<and> j < next_id st"
    using assms(1) k by (auto simp: wf_store_iff session_update_def)
  moreover have "next_id (session_update st task) = next_id st"
    by (simp add: session_update_def)
  ultimately show ?thesis
    using assms(1) by (simp add: wf_store_iff map_id_session_update)
qed

lemma wf_store_session_delete:
  "wf_store st \<Longrightarrow> wf_store (session_delete st task)"
  by (auto simp: wf_store_iff session_delete_def distinct_map_filter)

lemma session_get_session_update:
  assumes "session_get st k = Some old" and "id' task = Some k"
  shows "session_get (session_update st task) k = Some task"
proof -
  have "find (\<lambda>r. id' r = Some k) xs = Some old \<Longrightarrow>
        find (\<lambda>r. id' r = Some k) (map (\<lambda>r. if id' r = Some k then task else r) xs) = Some task"
    for xs
    using assms(2) by (induction xs) (auto split: if_splits)
  then show ?thesis
    using assms by (simp add: session_get_def session_update_def)
qed

lemma session_get_session_delete:
  "id' task = Some k \<Longrightarrow> session_get (session_delete st task) k = None"
  by (simp add: session_get_def session_delete_def find_None_iff)

lemma stable_desc_order: "order_by_desc key sel (stable_desc key sel)"
proof -
  have "sorted (map key (sort_key key (rev sel)))"
    by (rule sorted_sort_key)
  then have "sorted_wrt (\<lambda>a b. key a \<le> key b) (sort_key key (rev sel))"
    by (simp add: sorted_map)
  then have "sorted_wrt (\<lambda>a b. key b \<le> key a) (rev (sort_key key (rev sel)))"
    by (simp add: sorted_wrt_rev)
  then show ?thesis
    by (simp add: order_by_desc_def stable_desc_def)
qed

lemma order_by_desc_unique:
  assumes "order_by_desc key sel res" and "order_by_desc key sel res'"
    and "distinct (map key sel)"
  shows "res = res'"
proof -
  have m: "mset res = mset sel" "mset res' = mset sel"
    using assms(1,2) by (simp_all add: order_by_desc_def)
  have keys: "mset (map key res) = mset (map key sel)" "mset (map key res') = mset (map key sel)"
    using m by simp_all
  have d: "distinct (map key res)" "distinct (map key res')"
    using keys assms(3) by (metis mset_eq_imp_distinct_iff)+
  have s: "sorted (rev (map key res))" "sorted (rev (map key res'))"
    using assms(1,2) by (simp_all add: order_by_desc_def sorted_wrt_rev sorted_wrt_map)
  have "set (rev (map key res)) = set (rev (map key res'))"
    using keys by (metis set_mset_mset set_rev)
  then have "rev (map key res) = rev (map key res')"
    using s d by (intro sorted_distinct_set_unique) simp_all
  then have eq: "map key res = map key res'"
    by simp
  have "set res = set sel" "set res' = set sel"
    using m by (metis set_mset_mset)+
  moreover have "inj_on key (set sel)"
    using assms(3) by (simp add: distinct_map)
  ultimately have "inj_on key (set res \<union> set res')"
    by simp
  then show ?thesis
    using eq by (simp add: inj_on_map_eq_map)
qed

lemma get_completed_tasks_total: "\<exists>res. get_completed_tasks st res"
  using stable_desc_order by (auto simp: get_completed_tasks_def)

lemma get_pending_tasks_total: "\<exists>res. get_pending_tasks st res"
  using stable_desc_order by (auto simp: get_pending_tasks_def)

subsection \<open>The operations on a stored task\<close>

lemma id_setattrs: "id' (setattrs task task_data) = id' task"
  by (simp add: setattrs_def Let_def split: field.splits option.splits)

lemma update_task_found:
  assumes "get_task st task_id = Some old" and "\<not> null_in_required task_data"
  shows "update_task st task_id task_data now =
           (Inr (Some ((setattrs old task_data)\<lparr>updated_at := now\<rparr>)),
            session_update st ((setattrs old task_data)\<lparr>updated_at := now\<rparr>)) \<and>
         get_task (session_update st ((setattrs old task_data)\<lparr>updated_at := now\<rparr>)) task_id
           = Some ((setattrs old task_data)\<lparr>updated_at := now\<rparr>)"
proof -
  have got: "session_get st task_id = Some old"
    using assms(1) by (simp add: get_task_def)
  then have "id' old = Some task_id"
    by (simp add: session_get_SomeD)
  then have "id' ((setattrs old task_data)\<lparr>updated_at := now\<rparr>) = Some task_id"
    by (simp add: id_setattrs)
  with got have "session_get (session_update st ((setattrs old task_data)\<lparr>updated_at := now\<rparr>)) task_id
                   = Some ((setattrs old task_data)\<lparr>updated_at := now\<rparr>)"
    by (rule session_get_session_update)
  then show ?thesis
    using got assms(2) by (simp add: update_task_def get_task_def Let_def)
qed

lemma toggle_completed_found:
  assumes "get_task st task_id = Some old"
  shows "toggle_completed st task_id now =
           (Some (old\<lparr>completed := \<not> completed old, updated_at := now\<rparr>),
            session_update st (old\<lparr>completed := \<not> completed old, updated_at := now\<rparr>)) \<and>
         get_task (session_update st (old\<lparr>completed := \<not> completed old, updated_at := now\<rparr>))
             task_id
           = Some (old\<lparr>completed := \<not> completed old, updated_at := now\<rparr>)"
proof -
  have got: "session_get st task_id = Some old"
    using assms by (simp add: get_task_def)
  then have "id' (old\<lparr>completed := \<not> completed old, updated_at := now\<rparr>) = Some task_id"
    by (simp add: session_get_SomeD)
  with got have "session_get
                   (session_update st (old\<lparr>completed := \<not> completed old, updated_at := now\<rparr>))
                   task_id
                 = Some (old\<lparr>completed := \<not> completed old, updated_at := now\<rparr>)"
    by (rule session_get_session_update)
  then show ?thesis
    using got by (simp add: toggle_completed_def get_task_def Let_def)
qed

subsection \<open>Well-formedness is kept by every operation\<close>

lemma wf_store_create_task:
  "wf_store st \<Longrightarrow> wf_store (snd (create_task st task_data now_created now_updated))"
  by (simp add: create_task_def wf_store_session_insert)

lemma wf_store_update_task:
  assumes "wf_store st"
  shows "wf_store (snd (update_task st task_id task_data now))"
proof (cases "session_get st task_id")
  case None
  then show ?thesis
    using assms by (simp add: update_task_def)
next
  case (Some old)
  have "wf_store (session_update st ((setattrs old task_data)\<lparr>updated_at := now\<rparr>))"
    using assms Some by (rule wf_store_session_update) (simp add: id_setattrs)
  then show ?thesis
    using assms Some by (simp add: update_task_def Let_def)
qed

lemma wf_store_toggle_completed:
  assumes "wf_store st"
  shows "wf_store (snd (toggle_completed st task_id now))"
proof (cases "session_get st task_id")
  case None
  then show ?thesis
    using assms by (simp add: toggle_completed_def)
next
  case (Some old)
  have "wf_store (session_update st (old\<lparr>completed := \<not> completed old, updated_at := now\<rparr>))"
    using assms Some by (rule wf_store_session_update) simp
  then show ?thesis
    using assms Some by (simp add: toggle_completed_def Let_def)
qed

lemma wf_store_delete_task:
  "wf_store st \<Longrightarrow> wf_store (snd (delete_task st task_id))"
  by (simp add: delete_task_def wf_store_session_delete split: option.splits)

subsection \<open>The example tables are reached from the empty table\<close>

lemma example_store_reached:
  "create empty_store ''a'' None None None 5 5 = (Inr example_task, example_store)"
  by (simp add: create_def TaskCreate_init_def create_task_def session_insert_def Let_def
        title_ok_def description_ok_def empty_store_def example_task_def example_store_def)

lemma example_store2_reached:
  "create example_store ''b'' None None None 5 5 = (Inr example_task2, example_store2)"
  by (simp add: create_def TaskCreate_init_def create_task_def session_insert_def Let_def
        title_ok_def description_ok_def example_store_def example_task2_def example_store2_def)

lemma example_store3_reached:
  "toggle_completed example_store2 2 8
     = (Some (example_task2\<lparr>completed := True, updated_at := 8\<rparr>), example_store3)"
  by (simp add: toggle_completed_def session_get_def session_update_def Let_def
        example_store2_def example_store3_def example_task_def example_task2_def)

lemma example_store4_reached:
  "create example_store3 ''c'' None None None 6 6
     = (Inr example_task3,
        \<lparr>rows = rows example_store3 @ [example_task3], next_id = 4\<rparr>) \<and>
   create \<lparr>rows = rows example_store3 @ [example_task3], next_id = 4\<rparr> ''d'' None None None 7 7
     = (Inr example_task4,
        \<lparr>rows = rows example_store3 @ [example_task3, example_task4], next_id = 5\<rparr>) \<and>
   toggle_completed
       \<lparr>rows = rows example_store3 @ [example_task3, example_task4], next_id = 5\<rparr> 4 9
     = (Some (example_task4\<lparr>completed := True, updated_at := 9\<rparr>), example_store4)"
  by (simp add: create_def TaskCreate_init_def create_task_def session_insert_def Let_def
        title_ok_def description_ok_def toggle_completed_def session_get_def
        session_update_def example_store3_def example_store4_def example_task_def
        example_task2_def example_task3_def example_task4_def)

lemma get_task_example_store: "get_task example_store 1 = Some example_task"
  by (simp add: get_task_def session_get_def example_store_def example_task_def)

section \<open>Creating tasks\<close>

text \<open>
  C1 (as amended). For every create request with a title of length 1 to 200 and a
  description of length 0 to 1000, on a well-formed table, \<open>create\<close> returns a task
  that is stored under a freshly assigned id, which no row had before and which is unique
  in the table afterwards; the task carries the request's values, is not completed, and has
  priority \<open>MEDIUM\<close> when the request leaves the priority out. \<open>created_at\<close> is the first
  and \<open>updated_at\<close> the second of the two clock readings taken while the task object is
  built.
\<close>

theorem create_valid:
  assumes "wf_store st"
    and "1 \<le> length title_arg" and "length title_arg \<le> 200"
    and "\<forall>d. description_arg = Some d \<longrightarrow> length d \<le> 1000"
  shows "\<exists>task st'.
           create st title_arg description_arg priority_arg due_date_arg now_created now_updated
             = (Inr task, st') \<and>
           id' task = Some (next_id st) \<and>
           Some (next_id st) \<notin> id' ` set (rows st) \<and>
           rows st' = rows st @ [task] \<and>
           distinct (map id' (rows st')) \<and>
           get_task st' (next_id st) = Some task \<and>
           title task = title_arg \<and>
           description task = (case description_arg of None \<Rightarrow> [] | Some d \<Rightarrow> d) \<and>
           completed task = False \<and>
           priority task = (case priority_arg of None \<Rightarrow> MEDIUM | Some p \<Rightarrow> p) \<and>
           due_date task = due_date_arg \<and>
           created_at task = now_created \<and>
           updated_at task = now_updated"
proof -
  let ?d = "case description_arg of None \<Rightarrow> [] | Some d \<Rightarrow> d"
  let ?p = "case priority_arg of None \<Rightarrow> MEDIUM | Some p \<Rightarrow> p"
  let ?task = "\<lparr>id' = Some (next_id st), title = title_arg, description = ?d,
                completed = False, priority = ?p, due_date = due_date_arg,
                created_at = now_created, updated_at = now_updated\<rparr>"
  let ?st' = "st\<lparr>rows := rows st @ [?task], next_id := next_id st + 1\<rparr>"
  have d_ok: "description_ok ?d"
    using assms(4) by (simp add: description_ok_def split: option.splits)
  have t_ok: "title_ok title_arg"
    using assms(2,3) by (simp add: title_ok_def)
  have run: "create st title_arg description_arg priority_arg due_date_arg now_created now_updated
               = (Inr ?task, ?st')"
    using d_ok t_ok
    by (simp add: create_def TaskCreate_init_def create_task_def session_insert_def Let_def)
  have fresh: "Some (next_id st) \<notin> id' ` set (rows st)"
    using assms(1) by (rule wf_store_fresh)
  have "wf_store (snd (session_insert st (?task\<lparr>id' := None\<rparr>)))"
    using assms(1) by (rule wf_store_session_insert)
  then have dist: "distinct (map id' (rows ?st'))"
    by (simp add: wf_store_iff session_insert_def Let_def)
  have "find (\<lambda>r. id' r = Some (next_id st)) (rows st) = None"
    using fresh by (simp add: session_get_None_iff [unfolded session_get_def])
  then have get: "get_task ?st' (next_id st) = Some ?task"
    by (simp add: get_task_def session_get_def find_append_case)
  show ?thesis
    using run fresh dist get by simp
qed

theorem create_valid_witness:
  "wf_store empty_store \<and> 1 \<le> length ''a'' \<and> length ''a'' \<le> 200 \<and>
   (\<exists>task st'. create empty_store ''a'' None None None 10 11 = (Inr task, st') \<and>
      id' task = Some 1 \<and> completed task = False \<and> priority task = MEDIUM \<and>
      created_at task = 10 \<and> updated_at task = 11)"
  using create_valid [of empty_store "''a''" None None None 10 11]
  by (auto simp: wf_store_def empty_store_def)

text \<open>
  C1 as stated asks for \<open>created_at = updated_at\<close>. The two fields are filled by two
  separate calls of the clock; when the clock moves between them (here from 10 to 11) the
  created task has different timestamps.
\<close>

theorem create_timestamps_counterexample:
  "fst (create empty_store ''a'' None None None 10 11) =
     Inr \<lparr>id' = Some 1, title = ''a'', description = [], completed = False, priority = MEDIUM,
          due_date = None, created_at = 10, updated_at = 11\<rparr> \<and>
   created_at \<lparr>id' = Some 1, title = ''a'', description = [], completed = False, priority = MEDIUM,
          due_date = None, created_at = 10, updated_at = 11\<rparr> \<noteq>
   updated_at \<lparr>id' = Some 1, title = ''a'', description = [], completed = False, priority = MEDIUM,
          due_date = None, created_at = 10, updated_at = 11\<rparr>"
  by (simp add: create_def TaskCreate_init_def create_task_def session_insert_def Let_def
        title_ok_def description_ok_def empty_store_def)

text \<open>
  C2. For every create request whose title has length 0 or more than 200, or whose
  description has more than 1000 characters, \<open>create\<close> fails with ValidationError and
  nothing is persisted: the table is returned as it was, so its size is unchanged. The
  error is raised while the request object is built, before the service is entered.
\<close>

theorem create_invalid:
  assumes "length title_arg = 0 \<or> 200 < length title_arg \<or>
           (\<exists>d. description_arg = Some d \<and> 1000 < length d)"
  shows "create st title_arg description_arg priority_arg due_date_arg now_created now_updated
           = (Inl ValidationError, st) \<and>
         length (rows (snd (create st title_arg description_arg priority_arg due_date_arg
                              now_created now_updated))) = length (rows st)"
proof -
  have "\<not> title_ok title_arg \<or>
        \<not> description_ok (case description_arg of None \<Rightarrow> [] | Some s \<Rightarrow> s)"
    using assms by (auto simp: title_ok_def description_ok_def)
  then have "TaskCreate_init title_arg description_arg priority_arg due_date_arg
               = Inl ValidationError"
    by (auto simp: TaskCreate_init_def Let_def)
  then show ?thesis
    by (simp add: create_def)
qed

theorem create_invalid_witness:
  "(length '''' = 0 \<or> 200 < length '''' \<or> (\<exists>d. Some ''x'' = Some d \<and> 1000 < length d)) \<and>
   create empty_store '''' (Some ''x'') None None 10 11 = (Inl ValidationError, empty_store) \<and>
   length (rows (snd (create empty_store '''' (Some ''x'') None None 10 11)))
     = length (rows empty_store)"
  using create_invalid [of "''''" "Some ''x''" empty_store None None 10 11]
  by simp

section \<open>Updating tasks\<close>

text \<open>
  What an update that sets only the title does when the clock reading of the call is
  later than the stored \<open>updated_at\<close>: the title and \<open>updated_at\<close> change, every other
  field keeps its value, and \<open>updated_at\<close> is strictly greater than before.
\<close>

lemma update_title_only_clock_advanced:
  assumes "get_task st task_id = Some old" and "updated_at old < now"
  shows "\<exists>task' st'.
           update_task st task_id
             \<lparr>TaskUpdate.title = Given (Some x), description = Unset, completed = Unset,
              priority = Unset, due_date = Unset\<rparr> now = (Inr (Some task'), st') \<and>
           get_task st' task_id = Some task' \<and>
           title task' = x \<and>
           id' task' = id' old \<and>
           description task' = description old \<and>
           completed task' = completed old \<and>
           priority task' = priority old \<and>
           due_date task' = due_date old \<and>
           created_at task' = created_at old \<and>
           updated_at old < updated_at task'"
proof -
  let ?req = "\<lparr>TaskUpdate.title = Given (Some x), description = Unset, completed = Unset,
               priority = Unset, due_date = Unset\<rparr>"
  have ok: "\<not> null_in_required ?req"
    by (simp add: null_in_required_def)
  have set: "setattrs old ?req = old\<lparr>title := x\<rparr>"
    by (simp add: setattrs_def)
  show ?thesis
    using update_task_found [OF assms(1) ok, of now] assms(2) by (simp add: set)
qed

text \<open>
  C3. For every existing task, an update that sets only the title is to change only the
  title and \<open>updated_at\<close>, with the new \<open>updated_at\<close> strictly greater than the old one.
  \<open>update_task\<close> assigns \<^verbatim>\<open>datetime.utcnow()\<close>, the wall clock, and does nothing to
  place the new value above the stored one. For the task created at clock reading 5 and
  updated when the clock reads 5 again, the update returns and stores the task with the new
  title and with \<open>updated_at\<close> equal to the old value, which is what the service's own test
  (\<^verbatim>\<open>assert updated_task.updated_at > original_updated_at\<close>) excludes.
\<close>

theorem update_title_only_clock_stalled:
  "create empty_store ''a'' None None None 5 5 = (Inr example_task, example_store) \<and>
   update_task example_store 1
     \<lparr>TaskUpdate.title = Given (Some ''b''), description = Unset, completed = Unset,
      priority = Unset, due_date = Unset\<rparr> 5
     = (Inr (Some (example_task\<lparr>title := ''b''\<rparr>)),
        \<lparr>rows = [example_task\<lparr>title := ''b''\<rparr>], next_id = 2\<rparr>) \<and>
   updated_at (example_task\<lparr>title := ''b''\<rparr>) = updated_at example_task"
proof -
  have u: "update_task example_store 1
     \<lparr>TaskUpdate.title = Given (Some ''b''), description = Unset, completed = Unset,
      priority = Unset, due_date = Unset\<rparr> 5
     = (Inr (Some (example_task\<lparr>title := ''b''\<rparr>)),
        \<lparr>rows = [example_task\<lparr>title := ''b''\<rparr>], next_id = 2\<rparr>)"
    by (simp add: update_task_def session_get_def session_update_def
          null_in_required_def setattrs_def Let_def example_store_def example_task_def)
  have s: "updated_at (example_task\<lparr>title := ''b''\<rparr>) = updated_at example_task"
    by simp
  show ?thesis
    by (intro conjI example_store_reached u s)
qed

text \<open>
  C4. An update request whose title is passed with length 0 or more than 200, or whose
  description is passed with more than 1000 characters, is rejected with ValidationError
  and the table is returned as it was: nothing is persisted. The constraints are those of
  create: a title and a description are refused by the update schema exactly when the
  create schema refuses them. This holds for every task id, existing or not, since the
  request object is validated before the service is entered.
\<close>

theorem update_invalid:
  "((\<exists>s. title_arg = Given (Some s) \<and> (length s = 0 \<or> 200 < length s)) \<or>
    (\<exists>s. description_arg = Given (Some s) \<and> 1000 < length s)
     \<longrightarrow> update st task_id title_arg description_arg completed_arg priority_arg due_date_arg now
           = (Inl ValidationError, st)) \<and>
   (isl (TaskUpdate_init (Given (Some t)) (Given (Some d)) c p dd)
      = isl (TaskCreate_init t (Some d) p' dd'))"
proof -
  have "update st task_id title_arg description_arg completed_arg priority_arg due_date_arg now
          = (Inl ValidationError, st)"
    if "\<exists>s. title_arg = Given (Some s) \<and> (length s = 0 \<or> 200 < length s)"
  proof -
    from that obtain s where "title_arg = Given (Some s)" and "\<not> title_ok s"
      by (auto simp: title_ok_def)
    then show ?thesis
      by (simp add: update_def TaskUpdate_init_def)
  qed
  moreover
  have "update st task_id title_arg description_arg completed_arg priority_arg due_date_arg now
          = (Inl ValidationError, st)"
    if "\<exists>s. description_arg = Given (Some s) \<and> 1000 < length s"
  proof -
    from that obtain s where "description_arg = Given (Some s)" and "\<not> description_ok s"
      by (auto simp: description_ok_def)
    then show ?thesis
      by (simp add: update_def TaskUpdate_init_def)
  qed
  moreover
  have "isl (TaskUpdate_init (Given (Some t)) (Given (Some d)) c p dd)
          = isl (TaskCreate_init t (Some d) p' dd')"
    by (simp add: TaskUpdate_init_def TaskCreate_init_def Let_def)
  ultimately show ?thesis
    by blast
qed

theorem update_invalid_witness:
  "(\<exists>s. Given (Some '''') = Given (Some s) \<and> (length s = 0 \<or> 200 < length s)) \<and>
   get_task example_store 1 = Some example_task \<and>
   update example_store 1 (Given (Some '''')) Unset Unset Unset Unset 9
     = (Inl ValidationError, example_store)"
  using update_invalid [where title_arg = "Given (Some '''')" and st = example_store
      and task_id = 1 and description_arg = Unset and completed_arg = Unset
      and priority_arg = Unset and due_date_arg = Unset and now = 9]
  by (simp add: get_task_example_store)




text \<open>
  What an update that sets no field does when the clock reading of the call is later than
  the stored \<open>updated_at\<close>: \<open>updated_at\<close> is set to the reading and strictly advances,
  every other field keeps its value, and the task is stored so.
\<close>

lemma update_empty_clock_advanced:
  assumes "get_task st task_id = Some old" and "updated_at old < now"
  shows "\<exists>st'.
           update_task st task_id
             \<lparr>TaskUpdate.title = Unset, description = Unset, completed = Unset,
              priority = Unset, due_date = Unset\<rparr> now
             = (Inr (Some (old\<lparr>updated_at := now\<rparr>)), st') \<and>
           get_task st' task_id = Some (old\<lparr>updated_at := now\<rparr>) \<and>
           updated_at old < updated_at (old\<lparr>updated_at := now\<rparr>)"
proof -
  let ?req = "\<lparr>TaskUpdate.title = Unset, description = Unset, completed = Unset,
               priority = Unset, due_date = Unset\<rparr>"
  have ok: "\<not> null_in_required ?req"
    by (simp add: null_in_required_def)
  have set: "setattrs old ?req = old"
    by (simp add: setattrs_def)
  show ?thesis
    using update_task_found [OF assms(1) ok, of now] assms(2) by (simp add: set)
qed

text \<open>
  C10. For every existing task, an update that sets no field is still to set
  \<open>updated_at\<close> to the current time and persist the record, so that \<open>updated_at\<close> strictly
  advances and the empty update is not a no-op. \<open>update_task\<close> assigns the wall-clock
  reading and does nothing to place it above the stored value. For the task created at
  clock reading 5 and updated with the empty request when the clock reads 5 again, the
  update returns the same task and the same table: \<open>updated_at\<close> has not advanced.
\<close>

theorem update_empty_clock_stalled:
  "create empty_store ''a'' None None None 5 5 = (Inr example_task, example_store) \<and>
   update_task example_store 1
     \<lparr>TaskUpdate.title = Unset, description = Unset, completed = Unset,
      priority = Unset, due_date = Unset\<rparr> 5
     = (Inr (Some example_task), example_store)"
proof -
  have u: "update_task example_store 1
     \<lparr>TaskUpdate.title = Unset, description = Unset, completed = Unset,
      priority = Unset, due_date = Unset\<rparr> 5
     = (Inr (Some example_task), example_store)"
    by (simp add: update_task_def session_get_def session_update_def
          null_in_required_def setattrs_def Let_def example_store_def example_task_def)
  show ?thesis
    by (intro conjI example_store_reached u)
qed

section \<open>Absent and deleted tasks\<close>

text \<open>
  C5. For every id that no row of the table carries, \<open>get_task\<close>, \<open>update_task\<close> and
  \<open>toggle_completed\<close> return an absent result (no error) and leave the table as it was,
  and \<open>delete_task\<close> returns \<open>False\<close>; for every id that a row carries,
  \<open>delete_task\<close> returns \<open>True\<close> and \<open>get_task\<close> on that id is absent afterwards.
\<close>

theorem not_found:
  "(Some task_id \<notin> id' ` set (rows st) \<longrightarrow>
      get_task st task_id = None \<and>
      update_task st task_id task_data now = (Inr None, st) \<and>
      toggle_completed st task_id now = (None, st) \<and>
      delete_task st task_id = (False, st)) \<and>
   (Some task_id \<in> id' ` set (rows st) \<longrightarrow>
      fst (delete_task st task_id) = True \<and>
      get_task (snd (delete_task st task_id)) task_id = None)"
proof (intro conjI impI)
  assume absent: "Some task_id \<notin> id' ` set (rows st)"
  then have none: "session_get st task_id = None"
    by (simp add: session_get_None_iff)
  show "get_task st task_id = None"
    using none by (simp add: get_task_def)
  show "update_task st task_id task_data now = (Inr None, st)"
    using none by (simp add: update_task_def)
  show "toggle_completed st task_id now = (None, st)"
    using none by (simp add: toggle_completed_def)
  show "delete_task st task_id = (False, st)"
    using none by (simp add: delete_task_def)
next
  assume "Some task_id \<in> id' ` set (rows st)"
  then obtain task where some: "session_get st task_id = Some task"
    using session_get_None_iff [of st task_id] by (cases "session_get st task_id") auto
  then have key: "id' task = Some task_id"
    by (simp add: session_get_SomeD)
  show "fst (delete_task st task_id) = True"
    using some by (simp add: delete_task_def)
  show "get_task (snd (delete_task st task_id)) task_id = None"
    using some key by (simp add: delete_task_def get_task_def session_get_session_delete)
qed

theorem not_found_witness:
  "Some 7 \<notin> id' ` set (rows example_store) \<and>
   get_task example_store 7 = None \<and>
   update_task example_store 7
     \<lparr>TaskUpdate.title = Given (Some ''z''), description = Unset, completed = Unset,
      priority = Unset, due_date = Unset\<rparr> 9 = (Inr None, example_store) \<and>
   toggle_completed example_store 7 9 = (None, example_store) \<and>
   delete_task example_store 7 = (False, example_store) \<and>
   Some 1 \<in> id' ` set (rows example_store) \<and>
   fst (delete_task example_store 1) = True \<and>
   get_task (snd (delete_task example_store 1)) 1 = None"
  using not_found [of 7 example_store
      "\<lparr>TaskUpdate.title = Given (Some ''z''), description = Unset, completed = Unset,
        priority = Unset, due_date = Unset\<rparr>" 9]
    not_found [of 1 example_store
      "\<lparr>TaskUpdate.title = Given (Some ''z''), description = Unset, completed = Unset,
        priority = Unset, due_date = Unset\<rparr>" 9]
  by (simp add: example_store_def example_task_def)

section \<open>Toggling completion\<close>

text \<open>
  What two toggles in succession do when the clock moves forward from the stored
  \<open>updated_at\<close> to the first call and from the first call to the second: the flag is
  negated and then restored, and \<open>updated_at\<close> strictly increases at each call.
\<close>

lemma toggle_twice_clock_advanced:
  assumes "get_task st task_id = Some old" and "updated_at old < now1" and "now1 < now2"
  shows "\<exists>t1 st1 t2 st2.
           toggle_completed st task_id now1 = (Some t1, st1) \<and>
           toggle_completed st1 task_id now2 = (Some t2, st2) \<and>
           completed t1 = (\<not> completed old) \<and>
           completed t2 = completed old \<and>
           get_task st2 task_id = Some t2 \<and>
           updated_at old < updated_at t1 \<and>
           updated_at t1 < updated_at t2"
proof -
  let ?t1 = "old\<lparr>completed := \<not> completed old, updated_at := now1\<rparr>"
  let ?st1 = "session_update st ?t1"
  let ?t2 = "?t1\<lparr>completed := \<not> completed ?t1, updated_at := now2\<rparr>"
  let ?st2 = "session_update ?st1 ?t2"
  have first: "toggle_completed st task_id now1 = (Some ?t1, ?st1)"
    and got1: "get_task ?st1 task_id = Some ?t1"
    using toggle_completed_found [OF assms(1), of now1] by simp_all
  have second: "toggle_completed ?st1 task_id now2 = (Some ?t2, ?st2)"
    and got2: "get_task ?st2 task_id = Some ?t2"
    using toggle_completed_found [OF got1, of now2] by simp_all
  show ?thesis
    using first second got2 assms(2,3) by simp
qed

text \<open>
  C6. For every existing task, two toggles in succession are to return the completed flag
  to its original value, each of them strictly increasing \<open>updated_at\<close>.
  \<open>toggle_completed\<close> assigns the wall-clock reading, as \<open>update_task\<close> does, and does
  nothing to place it above the stored value. When both calls read the same clock value (9
  here), the flag goes to \<open>True\<close> and back, and the second call leaves \<open>updated_at\<close> where
  the first one put it.
\<close>

theorem toggle_twice_clock_stalled:
  "get_task example_store 1 = Some example_task \<and>
   toggle_completed example_store 1 9
     = (Some (example_task\<lparr>completed := True, updated_at := 9\<rparr>),
        \<lparr>rows = [example_task\<lparr>completed := True, updated_at := 9\<rparr>], next_id = 2\<rparr>) \<and>
   toggle_completed
       \<lparr>rows = [example_task\<lparr>completed := True, updated_at := 9\<rparr>], next_id = 2\<rparr> 1 9
     = (Some (example_task\<lparr>updated_at := 9\<rparr>),
        \<lparr>rows = [example_task\<lparr>updated_at := 9\<rparr>], next_id = 2\<rparr>) \<and>
   updated_at (example_task\<lparr>updated_at := 9\<rparr>)
     = updated_at (example_task\<lparr>completed := True, updated_at := 9\<rparr>)"
  by (simp add: get_task_def toggle_completed_def session_get_def session_update_def
        Let_def example_store_def example_task_def)

section \<open>Listings\<close>

text \<open>
  C7. On every table each of the three listing queries has an answer, and for all
  answers: \<open>get_completed_tasks\<close> returns exactly the rows with \<open>completed = True\<close>,
  descending in \<open>updated_at\<close>; \<open>get_pending_tasks\<close> returns exactly the rows with
  \<open>completed = False\<close>, descending in \<open>created_at\<close>; and the two answers partition the
  answer of \<open>get_all_tasks\<close>: together they hold each of its tasks exactly once, and they
  share none.
\<close>

theorem listings_partition:
  "get_completed_tasks st (stable_desc updated_at (filter completed (rows st))) \<and>
   get_pending_tasks st
     (stable_desc created_at (filter (\<lambda>r. completed r = False) (rows st))) \<and>
   get_all_tasks st (stable_desc created_at (rows st)) \<and>
   (\<forall>rc rp ra.
      get_completed_tasks st rc \<and> get_pending_tasks st rp \<and> get_all_tasks st ra \<longrightarrow>
        set rc = {r \<in> set (rows st). completed r} \<and>
        sorted_wrt (\<lambda>a b. updated_at b \<le> updated_at a) rc \<and>
        set rp = {r \<in> set (rows st). \<not> completed r} \<and>
        sorted_wrt (\<lambda>a b. created_at b \<le> created_at a) rp \<and>
        mset rc = filter_mset completed (mset ra) \<and>
        mset rp = filter_mset (\<lambda>r. \<not> completed r) (mset ra) \<and>
        mset rc + mset rp = mset ra \<and>
        set rc \<inter> set rp = {} \<and>
        set rc \<union> set rp = set ra)"
proof (intro conjI allI impI)
  show "get_completed_tasks st (stable_desc updated_at (filter completed (rows st)))"
    by (simp add: get_completed_tasks_def stable_desc_order)
  show "get_pending_tasks st
          (stable_desc created_at (filter (\<lambda>r. completed r = False) (rows st)))"
    by (simp only: get_pending_tasks_def stable_desc_order)
  show "get_all_tasks st (stable_desc created_at (rows st))"
    by (simp add: get_all_tasks_def stable_desc_order)
next
  fix rc rp ra
  assume h: "get_completed_tasks st rc \<and> get_pending_tasks st rp \<and> get_all_tasks st ra"
  have rc: "mset rc = mset (filter completed (rows st))"
    and rc_sorted: "sorted_wrt (\<lambda>a b. updated_at b \<le> updated_at a) rc"
    using h by (simp_all add: get_completed_tasks_def order_by_desc_def)
  have rp: "mset rp = mset (filter (\<lambda>r. \<not> completed r) (rows st))"
    and rp_sorted: "sorted_wrt (\<lambda>a b. created_at b \<le> created_at a) rp"
    using h by (simp_all add: get_pending_tasks_def order_by_desc_def)
  have ra: "mset ra = mset (rows st)"
    using h by (simp add: get_all_tasks_def order_by_desc_def)
  show set_rc: "set rc = {r \<in> set (rows st). completed r}"
    using rc by (metis set_filter set_mset_mset)
  show set_rp: "set rp = {r \<in> set (rows st). \<not> completed r}"
    using rp by (metis set_filter set_mset_mset)
  have set_ra: "set ra = set (rows st)"
    using ra by (metis set_mset_mset)
  show "sorted_wrt (\<lambda>a b. updated_at b \<le> updated_at a) rc"
    by (rule rc_sorted)
  show "sorted_wrt (\<lambda>a b. created_at b \<le> created_at a) rp"
    by (rule rp_sorted)
  show part_c: "mset rc = filter_mset completed (mset ra)"
    by (simp add: rc ra)
  show part_p: "mset rp = filter_mset (\<lambda>r. \<not> completed r) (mset ra)"
    by (simp add: rp ra)
  show "mset rc + mset rp = mset ra"
    by (simp add: part_c part_p)
  show "set rc \<inter> set rp = {}"
    by (auto simp: set_rc set_rp)
  show "set rc \<union> set rp = set ra"
    by (auto simp: set_rc set_rp set_ra)
qed

theorem listings_partition_witness:
  "get_completed_tasks example_store4
     [example_task4\<lparr>completed := True, updated_at := 9\<rparr>,
      example_task2\<lparr>completed := True, updated_at := 8\<rparr>] \<and>
   get_pending_tasks example_store4 [example_task3, example_task] \<and>
   get_all_tasks example_store4
     [example_task4\<lparr>completed := True, updated_at := 9\<rparr>, example_task3,
      example_task, example_task2\<lparr>completed := True, updated_at := 8\<rparr>] \<and>
   sorted_wrt (\<lambda>a b. updated_at b \<le> updated_at a)
     [example_task4\<lparr>completed := True, updated_at := 9\<rparr>,
      example_task2\<lparr>completed := True, updated_at := 8\<rparr>] \<and>
   sorted_wrt (\<lambda>a b. created_at b \<le> created_at a) [example_task3, example_task] \<and>
   mset [example_task4\<lparr>completed := True, updated_at := 9\<rparr>,
         example_task2\<lparr>completed := True, updated_at := 8\<rparr>]
     + mset [example_task3, example_task]
     = mset [example_task4\<lparr>completed := True, updated_at := 9\<rparr>, example_task3,
             example_task, example_task2\<lparr>completed := True, updated_at := 8\<rparr>] \<and>
   set [example_task4\<lparr>completed := True, updated_at := 9\<rparr>,
        example_task2\<lparr>completed := True, updated_at := 8\<rparr>]
     \<inter> set [example_task3, example_task] = {}"
proof -
  let ?rc = "[example_task4\<lparr>completed := True, updated_at := 9\<rparr>,
              example_task2\<lparr>completed := True, updated_at := 8\<rparr>]"
  let ?rp = "[example_task3, example_task]"
  let ?ra = "[example_task4\<lparr>completed := True, updated_at := 9\<rparr>, example_task3,
              example_task, example_task2\<lparr>completed := True, updated_at := 8\<rparr>]"
  have c: "get_completed_tasks example_store4 ?rc"
    by (simp add: get_completed_tasks_def order_by_desc_def example_store4_def
          example_task_def example_task2_def example_task3_def example_task4_def)
  have p: "get_pending_tasks example_store4 ?rp"
    by (simp add: get_pending_tasks_def order_by_desc_def example_store4_def
          example_task_def example_task2_def example_task3_def example_task4_def)
  have a: "get_all_tasks example_store4 ?ra"
    by (simp add: get_all_tasks_def order_by_desc_def example_store4_def
          example_task_def example_task2_def example_task3_def example_task4_def)
  note r = listings_partition [of example_store4, THEN conjunct2, THEN conjunct2,
      THEN conjunct2, THEN spec, THEN spec, THEN spec, THEN mp, OF conjI [OF c conjI [OF p a]]]
  have sc: "sorted_wrt (\<lambda>a b. updated_at b \<le> updated_at a) ?rc"
    using r by (elim conjE)
  have sp: "sorted_wrt (\<lambda>a b. created_at b \<le> created_at a) ?rp"
    using r by (elim conjE)
  have s: "mset ?rc + mset ?rp = mset ?ra"
    using r by (elim conjE)
  have d: "set ?rc \<inter> set ?rp = {}"
    using r by (elim conjE)
  show ?thesis
    by (intro conjI c p a sc sp s d)
qed

text \<open>
  C8 (as amended). \<open>get_all_tasks\<close> always has an answer; every answer holds each stored
  task exactly once and is descending in \<open>created_at\<close> (newest first), and on an empty
  table it is the empty list. When no two stored tasks share a \<open>created_at\<close> the answer is
  unique and is the order the specification names. Among tasks with equal \<open>created_at\<close>
  the query fixes no order.
\<close>

theorem get_all_tasks_order:
  "get_all_tasks st (stable_desc created_at (rows st)) \<and>
   (\<forall>res. get_all_tasks st res \<longrightarrow>
      mset res = mset (rows st) \<and>
      sorted_wrt (\<lambda>a b. created_at b \<le> created_at a) res \<and>
      (rows st = [] \<longrightarrow> res = []) \<and>
      (distinct (map created_at (rows st)) \<longrightarrow> res = stable_desc created_at (rows st)))"
proof (intro conjI allI impI)
  show "get_all_tasks st (stable_desc created_at (rows st))"
    by (simp add: get_all_tasks_def stable_desc_order)
next
  fix res assume r: "get_all_tasks st res"
  show "mset res = mset (rows st)"
    using r by (simp add: get_all_tasks_def order_by_desc_def)
  show "sorted_wrt (\<lambda>a b. created_at b \<le> created_at a) res"
    using r by (simp add: get_all_tasks_def order_by_desc_def)
  show "res = []" if "rows st = []"
    using r that by (simp add: get_all_tasks_def order_by_desc_def)
  show "res = stable_desc created_at (rows st)" if "distinct (map created_at (rows st))"
  proof (rule order_by_desc_unique)
    show "order_by_desc created_at (rows st) res"
      using r by (simp add: get_all_tasks_def)
    show "order_by_desc created_at (rows st) (stable_desc created_at (rows st))"
      by (rule stable_desc_order)
    show "distinct (map created_at (rows st))"
      by (rule that)
  qed
qed

theorem get_all_tasks_order_witness:
  "get_all_tasks example_store2 [example_task2, example_task] \<and>
   get_all_tasks example_store2 (stable_desc created_at (rows example_store2)) \<and>
   mset [example_task2, example_task] = mset (rows example_store2) \<and>
   sorted_wrt (\<lambda>a b. created_at b \<le> created_at a) [example_task2, example_task] \<and>
   rows empty_store = [] \<and>
   distinct (map created_at (rows empty_store)) \<and>
   get_all_tasks empty_store [] \<and>
   [] = stable_desc created_at (rows empty_store)"
proof -
  have a: "get_all_tasks example_store2 [example_task2, example_task]"
    by (simp add: get_all_tasks_def order_by_desc_def example_store2_def
          example_task_def example_task2_def)
  have n: "rows empty_store = []"
    by (simp add: empty_store_def)
  have d: "distinct (map created_at (rows empty_store))"
    by (simp add: n)
  have e: "get_all_tasks empty_store []"
    by (simp add: get_all_tasks_def order_by_desc_def n)
  note r2 = get_all_tasks_order [of example_store2]
  note r0 = get_all_tasks_order [of empty_store]
  have s: "get_all_tasks example_store2 (stable_desc created_at (rows example_store2))"
    using r2 by (elim conjE)
  note i2 = r2 [THEN conjunct2, THEN spec, THEN mp, OF a]
  have m: "mset [example_task2, example_task] = mset (rows example_store2)"
    by (rule i2 [THEN conjunct1])
  have o: "sorted_wrt (\<lambda>a b. created_at b \<le> created_at a) [example_task2, example_task]"
    by (rule i2 [THEN conjunct2, THEN conjunct1])
  note i0 = r0 [THEN conjunct2, THEN spec, THEN mp, OF e]
  have u: "[] = stable_desc created_at (rows empty_store)"
    by (rule i0 [THEN conjunct2, THEN conjunct2, THEN conjunct2, THEN mp, OF d])
  show ?thesis
    by (intro conjI a s m o n d e u)
qed

text \<open>
  C8 as stated has ties in \<open>created_at\<close> broken by insertion order. The query orders by
  \<open>created_at\<close> alone: for two tasks created at the same clock reading, the listing with
  the later-inserted task first is an answer too, and it is not the insertion-ordered one.
\<close>

theorem get_all_tasks_ties_counterexample:
  "create example_store ''b'' None None None 5 5 = (Inr example_task2, example_store2) \<and>
   created_at example_task = created_at example_task2 \<and>
   get_all_tasks example_store2 [example_task2, example_task] \<and>
   stable_desc created_at (rows example_store2) = [example_task, example_task2] \<and>
   [example_task2, example_task] \<noteq> stable_desc created_at (rows example_store2)"
proof -
  have r: "create example_store ''b'' None None None 5 5 = (Inr example_task2, example_store2)"
    by (rule example_store2_reached)
  have t: "created_at example_task = created_at example_task2"
    by (simp add: example_task_def example_task2_def)
  have a: "get_all_tasks example_store2 [example_task2, example_task]"
    by (simp add: get_all_tasks_def order_by_desc_def example_store2_def
          example_task_def example_task2_def)
  have s: "stable_desc created_at (rows example_store2) = [example_task, example_task2]"
    by (simp add: stable_desc_def example_store2_def t)
  have n: "[example_task2, example_task] \<noteq> stable_desc created_at (rows example_store2)"
    by (simp add: s example_task_def example_task2_def)
  show ?thesis
    by (intro conjI r t a s n)
qed

end
